theory Spec2Isabelle
  imports Main "HOL-Library.Word" "HOL-Library.Sublist"
begin

section \<open>The transcription request handler of python\_backend/main.py\<close>

text \<open>
  The repository is one FastAPI handler, \<open>transcribe_audio\<close>, that relays an uploaded
  file in chunks to a streaming speech-to-text provider and aggregates the provider's
  transcript events. The handler's local variables become a record that is passed
  along, every \<open>raise\<close> becomes a value of type \<open>exn\<close>, and the provider SDK, which is
  not part of the repository, is a parameter: a script of what each SDK call answers
  and of the events it delivers to the registered callbacks meanwhile.

  Python strings are modelled as \<open>string\<close>, read as the UTF-8 bytes of the text: the
  handler only tests strings for emptiness, concatenates them, and searches the ASCII
  word \<open>auth\<close> in a lower-cased copy, and these agree on code points and on bytes.
\<close>

subsection \<open>Data\<close>

type_synonym bytes = "8 word list"

text \<open>The exceptions the handler distinguishes in its \<open>except\<close> clauses, each with the
  text \<open>str(e)\<close> (for \<open>HTTPException\<close>: status code and detail). \<open>OtherException\<close> is any
  other subclass of \<open>Exception\<close>; \<open>BaseException\<close> is an exception outside that class
  (\<open>asyncio.CancelledError\<close> of a cancelled await, \<open>KeyboardInterrupt\<close>), which no clause of
  the handler catches.\<close>

datatype exn =
    DeepgramError string
  | HTTPException nat string
  | OtherException string
  | BaseException string

text \<open>What a callback can raise: \<open>alternatives[0]\<close> on an empty list.\<close>

datatype callback_error = IndexError

text \<open>
  The events of \<open>LiveTranscriptionEvents\<close> the handler subscribes to (lines 84-91).
  A transcript event carries the transcripts of \<open>result.channel.alternatives\<close>, in
  order; an error event carries its \<open>message\<close> field when it has one.
\<close>

datatype event =
    Open
  | Transcript "string list"
  | Metadata
  | SpeechStarted
  | UtteranceEnd
  | Close
  | Error "string option"
  | Unhandled

text \<open>The calls the handler makes on the connection, in the order it makes them;
  \<open>IsConnected\<close> is recorded with the answer it got.\<close>

datatype call =
    Start
  | Send bytes
  | Finish
  | IsConnected bool

text \<open>
  The handler's variables: \<open>dg_connection\<close> (\<open>False\<close> for \<open>None\<close>),
  \<open>transcription_result\<close> and \<open>deepgram_error_message\<close> (lines 31-33), and the log of
  the calls made on the connection so far.
\<close>

record hstate =
  dg_connection :: bool
  transcription_result :: string
  deepgram_error_message :: "string option"
  calls :: "call list"

text \<open>The JSON body of a normal return: \<open>error\<close> is \<open>None\<close> when the key is absent.\<close>

record body =
  transcription :: string
  error :: "string option"

text \<open>
  Modelled from the spec: the provider SDK (package \<open>deepgram\<close>) is not in the
  repository. Its interface is the spec's outbound provider interface (section 6):
  \<open>start\<close> answers a truth value, \<open>finish\<close> awaits a graceful close and \<open>is_connected\<close>
  answers a truth value. Every call and every await inside the \<open>try\<close> block may raise,
  also the read of the upload, the \<open>finish\<close> of line 124 and the sleep of line 128
  (an error of the SDK, or the cancellation of the request while it waits). The
  close attempts of the \<open>except\<close> clauses and of the \<open>finally\<close> block (lines 144, 157,
  163) are taken to complete, as the interface describes \<open>finish\<close>. A provider is the
  script of one request:
  \<^item> \<open>client_raises\<close>: what building the client and the connection raises (lines 37-44),
    before \<open>dg_connection\<close> is assigned;
  \<^item> \<open>register_raises\<close>: what registering the callbacks and building the options raises
    (lines 84-103);
  \<^item> \<open>start_events\<close>, \<open>start_result\<close>: the events delivered while \<open>start\<close> is awaited, and
    what it returns or raises (line 107);
  \<^item> \<open>read_events\<close>, \<open>read_raises\<close>: the events delivered while the k-th \<open>file.read\<close> is
    awaited, and what that await raises (line 117);
  \<^item> \<open>send_raises\<close>: what the k-th \<open>send\<close> raises (line 120);
  \<^item> \<open>finish_events\<close>, \<open>finish_raises\<close>: the events delivered while \<open>finish\<close> is awaited
    after streaming, and what that await raises (line 124);
  \<^item> \<open>sleep_events\<close>, \<open>sleep_raises\<close>: the same for the two-second sleep (line 128);
  \<^item> \<open>connected_answers\<close>: what the k-th \<open>is_connected()\<close> answers.
  A script shorter than the run answers with no event, no exception and
  \<open>False\<close> beyond its end.
\<close>

record provider =
  client_raises :: "exn option"
  register_raises :: "exn option"
  start_events :: "event list"
  start_result :: "exn + bool"
  read_events :: "event list list"
  read_raises :: "exn option list"
  send_raises :: "exn option list"
  finish_events :: "event list"
  finish_raises :: "exn option"
  sleep_events :: "event list"
  sleep_raises :: "exn option"
  connected_answers :: "bool list"

definition script_at :: "'a list \<Rightarrow> nat \<Rightarrow> 'a \<Rightarrow> 'a" where
  "script_at xs k d = (if k < length xs then xs ! k else d)"

subsection \<open>Configuration (line 20)\<close>

definition PLACEHOLDER_KEY :: string where
  "PLACEHOLDER_KEY = ''fb7768611a8ea2a7c76d745ccc056966e5a1a93b''"

text \<open>\<open>os.getenv("DEEPGRAM_API_KEY", placeholder)\<close>: the environment's value, or the
  placeholder when the variable is absent.\<close>

definition DEEPGRAM_API_KEY :: "string option \<Rightarrow> string" where
  "DEEPGRAM_API_KEY env = (case env of None \<Rightarrow> PLACEHOLDER_KEY | Some v \<Rightarrow> v)"

subsection \<open>The callbacks (lines 47-82)\<close>

text \<open>\<open>on_message\<close>, lines 51-56: the first alternative's transcript is appended when it
  is not empty, after a space when the accumulator is not empty.\<close>

definition on_message :: "hstate \<Rightarrow> string list \<Rightarrow> callback_error + hstate" where
  "on_message s alternatives =
     (case alternatives of
        [] \<Rightarrow> Inl IndexError
      | sentence # _ \<Rightarrow>
          Inr (if length sentence > 0
               then s\<lparr>transcription_result :=
                        transcription_result s @
                          (if transcription_result s \<noteq> [] then '' '' @ sentence else sentence)\<rparr>
               else s))"

text \<open>\<open>on_error\<close>, lines 74-78: \<open>error.get('message', 'Unknown Deepgram error')\<close> is stored,
  whatever was stored before.\<close>

definition on_error :: "hstate \<Rightarrow> string option \<Rightarrow> hstate" where
  "on_error s message =
     (let error_message = (case message of None \<Rightarrow> ''Unknown Deepgram error'' | Some m \<Rightarrow> m)
      in s\<lparr>deepgram_error_message := Some error_message\<rparr>)"

text \<open>
  The provider calls the callback registered for the event (lines 84-91). The other
  six callbacks only log. An exception of \<open>on_message\<close> is raised into the provider's
  dispatcher, before any assignment: the handler's variables stay as they were.
\<close>

fun dispatch :: "hstate \<Rightarrow> event \<Rightarrow> hstate" where
  "dispatch s (Transcript alternatives) =
     (case on_message s alternatives of Inl _ \<Rightarrow> s | Inr s' \<Rightarrow> s')"
| "dispatch s (Error message) = on_error s message"
| "dispatch s _ = s"

definition deliver :: "event list \<Rightarrow> hstate \<Rightarrow> hstate" where
  "deliver evs s = foldl dispatch s evs"

subsection \<open>The upload and the streaming loop (lines 115-120)\<close>

definition chunk_size :: nat where
  "chunk_size = 4096"

text \<open>
  Modelled from the spec: \<open>UploadFile\<close> is the framework's. The file is the bytes not
  yet read; \<open>read(n)\<close> returns the next \<open>n\<close> of them, or all that are left when there
  are fewer, and a zero-length read marks the end of the stream (spec, section 4.1,
  step 4).
\<close>

definition file_read :: "nat \<Rightarrow> bytes \<Rightarrow> bytes \<times> bytes" where
  "file_read n file = (take n file, drop n file)"

definition log_call :: "call \<Rightarrow> hstate \<Rightarrow> hstate" where
  "log_call c s = s\<lparr>calls := calls s @ [c]\<rparr>"

text \<open>The \<open>while True\<close> loop; \<open>k\<close> counts the iterations. The result is the exception
  that left the loop, if any, and the variables at that moment.\<close>

function stream :: "provider \<Rightarrow> nat \<Rightarrow> bytes \<Rightarrow> hstate \<Rightarrow> exn option \<times> hstate" where
  "stream p k file s =
     (let s1 = deliver (script_at (read_events p) k []) s
      in (case script_at (read_raises p) k None of
            Some e \<Rightarrow> (Some e, s1)
          | None \<Rightarrow>
              let data = fst (file_read chunk_size file)
              in if data = [] then (None, s1)
                 else let s2 = log_call (Send data) s1
                      in (case script_at (send_raises p) k None of
                            Some e \<Rightarrow> (Some e, s2)
                          | None \<Rightarrow>
                              stream p (Suc k) (snd (file_read chunk_size file)) s2)))"
  by pat_completeness auto
termination
  by (relation "measure (\<lambda>(p, k, file, s). length file)")
     (auto simp: file_read_def chunk_size_def)

subsection \<open>The body of the \<open>try\<close> block (lines 36-139)\<close>

text \<open>Python's truth value of \<open>deepgram_error_message\<close>: \<open>None\<close> and the empty string are
  false.\<close>

definition truthy :: "string option \<Rightarrow> bool" where
  "truthy m = (case m of None \<Rightarrow> False | Some t \<Rightarrow> t \<noteq> [])"

text \<open>Lines 36-128: from the client's construction to the end of the settle delay. The
  result is the exception that left the \<open>try\<close> block before line 130, if any, and the
  variables at that moment.\<close>

definition run_session :: "provider \<Rightarrow> bytes \<Rightarrow> hstate \<Rightarrow> exn option \<times> hstate" where
  "run_session p file s0 =
     (case client_raises p of
        Some e \<Rightarrow> (Some e, s0)
      | None \<Rightarrow>
          let s1 = s0\<lparr>dg_connection := True\<rparr> in
          (case register_raises p of
             Some e \<Rightarrow> (Some e, s1)
           | None \<Rightarrow>
               let s2 = deliver (start_events p) (log_call Start s1) in
               (case start_result p of
                  Inl e \<Rightarrow> (Some e, s2)
                | Inr started \<Rightarrow>
                    if \<not> started
                    then (Some (HTTPException 500
                            (case deepgram_error_message s2 of
                               None \<Rightarrow> ''Failed to connect to Deepgram (initiation phase).''
                             | Some m \<Rightarrow>
                                 if m \<noteq> [] then m
                                 else ''Failed to connect to Deepgram (initiation phase).'')),
                          s2)
                    else
                      (case stream p 0 file s2 of
                         (Some e, s3) \<Rightarrow> (Some e, s3)
                       | (None, s3) \<Rightarrow>
                           let s4 = deliver (finish_events p) (log_call Finish s3) in
                           (case finish_raises p of
                              Some e \<Rightarrow> (Some e, s4)
                            | None \<Rightarrow>
                                let s5 = deliver (sleep_events p) s4 in
                                (case sleep_raises p of
                                   Some e \<Rightarrow> (Some e, s5)
                                 | None \<Rightarrow> (None, s5)))))))"

text \<open>Lines 130-139: the final state decides the body.\<close>

definition evaluate :: "hstate \<Rightarrow> body" where
  "evaluate s =
     (if truthy (deepgram_error_message s)
      then \<lparr>transcription = '''',
            error = Some (''Deepgram error: '' @ (case deepgram_error_message s of
                                                    None \<Rightarrow> ''None'' | Some m \<Rightarrow> m))\<rparr>
      else if transcription_result s = []
      then \<lparr>transcription = '''', error = Some ''No speech detected or empty audio.''\<rparr>
      else \<lparr>transcription = transcription_result s, error = None\<rparr>)"

subsection \<open>The exception handlers and the \<open>finally\<close> block (lines 141-163)\<close>

text \<open>\<open>if dg_connection and dg_connection.is_connected(): await dg_connection.finish()\<close>,
  as it stands at lines 143, 156 and 161.\<close>

definition is_connected :: "provider \<Rightarrow> hstate \<Rightarrow> bool" where
  "is_connected p s =
     script_at (connected_answers p)
       (length (filter (\<lambda>c. c = IsConnected True \<or> c = IsConnected False) (calls s))) False"

definition finish_if_connected :: "provider \<Rightarrow> hstate \<Rightarrow> hstate" where
  "finish_if_connected p s =
     (if dg_connection s
      then let answer = is_connected p s;
               s1 = log_call (IsConnected answer) s
           in if answer then log_call Finish s1 else s1
      else s)"

text \<open>\<open>str(e).lower()\<close> on the ASCII letters, and \<open>needle in haystack\<close>.\<close>

definition lower_char :: "char \<Rightarrow> char" where
  "lower_char c =
     (case map_of (zip ''ABCDEFGHIJKLMNOPQRSTUVWXYZ'' ''abcdefghijklmnopqrstuvwxyz'') c of
        None \<Rightarrow> c
      | Some l \<Rightarrow> l)"

definition lower :: "string \<Rightarrow> string" where
  "lower t = map lower_char t"

fun contains :: "string \<Rightarrow> string \<Rightarrow> bool" where
  "contains needle [] = (needle = [])"
| "contains needle (c # cs) = (prefix needle (c # cs) \<or> contains needle cs)"

definition api_error_detail :: "string \<Rightarrow> string" where
  "api_error_detail text =
     (if contains ''auth'' (lower text)
      then ''Deepgram authentication error. Check API Key.''
      else ''Deepgram API error: '' @ text)"

definition initial :: hstate where
  "initial = \<lparr>dg_connection = False, transcription_result = '''',
              deepgram_error_message = None, calls = []\<rparr>"

text \<open>
  The handler. The result is what FastAPI gets, the returned body or the exception
  raised, and the final state with the log of the connection's calls. The
  \<open>finally\<close> block runs last on every path through the \<open>try\<close> statement, also when
  no clause catches the exception; the configuration check of line 27 is before it.
\<close>

definition transcribe_audio :: "string \<Rightarrow> provider \<Rightarrow> bytes \<Rightarrow> (exn + body) \<times> hstate" where
  "transcribe_audio key p file =
     (if key = [] \<or> key = PLACEHOLDER_KEY
      then (Inl (HTTPException 500 ''Deepgram API key not configured.''), initial)
      else
        (case run_session p file initial of
           (None, s) \<Rightarrow> (Inr (evaluate s), finish_if_connected p s)
         | (Some (DeepgramError text), s) \<Rightarrow>
             (Inl (HTTPException 500 (api_error_detail text)),
              finish_if_connected p (finish_if_connected p s))
         | (Some (HTTPException code detail), s) \<Rightarrow>
             (Inl (HTTPException code detail), finish_if_connected p s)
         | (Some (OtherException text), s) \<Rightarrow>
             (Inl (HTTPException 500 (''An unexpected server error occurred: '' @ text)),
              finish_if_connected p (finish_if_connected p s))
         | (Some (BaseException text), s) \<Rightarrow>
             (Inl (BaseException text), finish_if_connected p s)))"

section \<open>Notions of the specification\<close>

text \<open>
  The definitions of this section follow the specification's words, not the source:
  they say what the claims compare the handler with.
\<close>

text \<open>The fragments of a sequence of events: the first alternative's transcript of
  every transcript event that has one, when it is not empty, in arrival order.\<close>

fun spec_fragments :: "event list \<Rightarrow> string list" where
  "spec_fragments [] = []"
| "spec_fragments (Transcript (f # _) # evs) =
     (if f = [] then spec_fragments evs else f # spec_fragments evs)"
| "spec_fragments (_ # evs) = spec_fragments evs"

text \<open>\<open>F1 + " " + F2 + ... + " " + Fn\<close>.\<close>

fun spec_join :: "string list \<Rightarrow> string" where
  "spec_join [] = []"
| "spec_join [f] = f"
| "spec_join (f # g # fs) = f @ '' '' @ spec_join (g # fs)"

text \<open>The messages of the error events of a sequence, in arrival order; an event
  without the field counts with the fallback text.\<close>

fun spec_error_messages :: "event list \<Rightarrow> string list" where
  "spec_error_messages [] = []"
| "spec_error_messages (Error None # evs) = ''Unknown Deepgram error'' # spec_error_messages evs"
| "spec_error_messages (Error (Some m) # evs) = m # spec_error_messages evs"
| "spec_error_messages (_ # evs) = spec_error_messages evs"

text \<open>The input cut into consecutive pieces of \<open>n\<close> elements, the last one shorter
  when the length is not a multiple of \<open>n\<close>.\<close>

function spec_chunks :: "nat \<Rightarrow> 'a list \<Rightarrow> 'a list list" where
  "spec_chunks n xs = (if n = 0 \<or> xs = [] then [] else take n xs # spec_chunks n (drop n xs))"
  by pat_completeness auto
termination
  by (relation "measure (\<lambda>(n, xs). length xs)") auto

text \<open>A run that streams the whole payload reads once per chunk and once more for
  the empty read that ends the loop; \<open>spec_events_of_run\<close> lists the events such a run
  receives before it evaluates its state, in the order of their delivery.\<close>

definition spec_reads :: "bytes \<Rightarrow> nat" where
  "spec_reads payload = Suc ((length payload + 4095) div 4096)"

definition spec_read_events :: "provider \<Rightarrow> nat \<Rightarrow> nat \<Rightarrow> event list" where
  "spec_read_events p k n = concat (map (\<lambda>i. script_at (read_events p) i []) [k ..< k + n])"

definition spec_events_of_run :: "provider \<Rightarrow> bytes \<Rightarrow> event list" where
  "spec_events_of_run p payload =
     start_events p @ spec_read_events p 0 (spec_reads payload)
       @ finish_events p @ sleep_events p"

text \<open>The data of the \<open>send\<close> calls of a log, in order.\<close>

fun sent_chunks :: "call list \<Rightarrow> bytes list" where
  "sent_chunks [] = []"
| "sent_chunks (Send d # cs) = d # sent_chunks cs"
| "sent_chunks (_ # cs) = sent_chunks cs"

subsection \<open>A provider for the sample runs\<close>

text \<open>A provider that accepts the connection, raises nothing, delivers no event and
  reports the connection closed after \<open>finish\<close>.\<close>

definition quiet_provider :: provider where
  "quiet_provider =
     \<lparr>client_raises = None, register_raises = None, start_events = [],
      start_result = Inr True, read_events = [], read_raises = [], send_raises = [],
      finish_events = [], finish_raises = None, sleep_events = [], sleep_raises = None,
      connected_answers = []\<rparr>"

subsection \<open>Reading the log of calls\<close>

text \<open>A close-if-still-open attempt as the log shows it: the query with its answer,
  followed by \<open>finish\<close> when the answer was positive.\<close>

definition spec_close_if_open :: "bool \<Rightarrow> call list" where
  "spec_close_if_open answer = IsConnected answer # (if answer then [Finish] else [])"

text \<open>The close-if-still-open attempts after the \<open>try\<close> block, by the exception that
  left it: the clauses for \<open>DeepgramError\<close> and for \<open>Exception\<close> make one and the \<open>finally\<close>
  block makes one more; on a normal return, for a re-raised \<open>HTTPException\<close> and for an
  exception that no clause catches there is only the \<open>finally\<close> block.\<close>

fun spec_close_attempts :: "exn option \<Rightarrow> nat" where
  "spec_close_attempts None = 1"
| "spec_close_attempts (Some (DeepgramError _)) = 2"
| "spec_close_attempts (Some (HTTPException _ _)) = 1"
| "spec_close_attempts (Some (OtherException _)) = 2"
| "spec_close_attempts (Some (BaseException _)) = 1"

text \<open>The log of \<open>n\<close> attempts in a row: the k-th of them gets the k-th answer of
  \<open>is_connected\<close>.\<close>

definition spec_cleanup :: "provider \<Rightarrow> nat \<Rightarrow> call list" where
  "spec_cleanup p n =
     concat (map (\<lambda>k. spec_close_if_open (script_at (connected_answers p) k False)) [0 ..< n])"

text \<open>The calls that use the session: \<open>start\<close> and \<open>send\<close>.\<close>

fun streaming :: "call \<Rightarrow> bool" where
  "streaming Start = True"
| "streaming (Send _) = True"
| "streaming _ = False"

text \<open>How often the close operation was invoked, and how often \<open>is_connected\<close>
  answered that the session is open.\<close>

definition closes :: "call list \<Rightarrow> nat" where
  "closes cs = length (filter (\<lambda>c. c = Finish) cs)"

definition positive_checks :: "call list \<Rightarrow> nat" where
  "positive_checks cs = length (filter (\<lambda>c. c = IsConnected True) cs)"

text \<open>The closes that do not directly follow a positive answer of \<open>is_connected\<close>;
  the flag says whether the call before was such an answer.\<close>

fun unguarded :: "bool \<Rightarrow> call list \<Rightarrow> nat" where
  "unguarded g [] = 0"
| "unguarded g (Finish # cs) = (if g then 0 else 1) + unguarded False cs"
| "unguarded g (IsConnected answer # cs) = unguarded answer cs"
| "unguarded g (_ # cs) = unguarded False cs"

definition unguarded_closes :: "call list \<Rightarrow> nat" where
  "unguarded_closes cs = unguarded False cs"

text \<open>The log ends with a close-if-still-open attempt.\<close>

definition checked_last :: "call list \<Rightarrow> bool" where
  "checked_last cs =
     (case rev cs of
        IsConnected False # _ \<Rightarrow> True
      | Finish # IsConnected True # _ \<Rightarrow> True
      | _ \<Rightarrow> False)"

text \<open>No \<open>start\<close> and no \<open>send\<close> after the first close.\<close>

fun no_use_after_close :: "call list \<Rightarrow> bool" where
  "no_use_after_close [] = True"
| "no_use_after_close (Finish # cs) = (filter streaming cs = [])"
| "no_use_after_close (_ # cs) = no_use_after_close cs"


section \<open>Lemmas\<close>

declare stream.simps [simp del]

lemma deliver_Nil [simp]: "deliver [] s = s"
  by (simp add: deliver_def)

lemma deliver_Cons [simp]: "deliver (ev # evs) s = deliver evs (dispatch s ev)"
  by (simp add: deliver_def)

lemma deliver_append: "deliver (evs @ evs') s = deliver evs' (deliver evs s)"
  by (simp add: deliver_def)

lemma spec_join_Cons: "spec_join (f # fs) = f @ concat (map ((#) CHR '' '') fs)"
  by (induction fs arbitrary: f) auto

lemma transcript_deliver:
  "transcription_result (deliver evs s) =
     (if transcription_result s = [] then spec_join (spec_fragments evs)
      else transcription_result s @ concat (map ((#) CHR '' '') (spec_fragments evs)))"
  by (induction evs arbitrary: s rule: spec_fragments.induct)
     (simp_all add: on_message_def on_error_def spec_join_Cons)

lemma spec_join_prefix: "fs \<noteq> [] \<Longrightarrow> prefix (hd fs) (spec_join fs)"
  by (cases fs) (auto simp: spec_join_Cons)

lemma spec_join_suffix: "fs \<noteq> [] \<Longrightarrow> suffix (last fs) (spec_join fs)"
proof (induction fs rule: spec_join.induct)
  case (3 f g fs)
  then have "suffix (last (g # fs)) (spec_join (g # fs))" by simp
  then show ?case by (auto simp: suffix_def)
qed simp_all

lemma error_deliver:
  "deepgram_error_message (deliver evs s) =
     (if spec_error_messages evs = [] then deepgram_error_message s
      else Some (last (spec_error_messages evs)))"
  by (induction evs arbitrary: s rule: spec_error_messages.induct)
     (simp_all add: on_error_def on_message_def split: list.splits)

declare spec_chunks.simps [simp del]

lemma dispatch_calls [simp]: "calls (dispatch s ev) = calls s"
  by (cases ev) (auto simp: on_message_def on_error_def split: list.splits)

lemma dispatch_dg_connection [simp]: "dg_connection (dispatch s ev) = dg_connection s"
  by (cases ev) (auto simp: on_message_def on_error_def split: list.splits)

lemma dispatch_calls_update: "dispatch (s\<lparr>calls := cs\<rparr>) ev = (dispatch s ev)\<lparr>calls := cs\<rparr>"
  by (cases ev) (auto simp: on_message_def on_error_def split: list.splits)

lemma deliver_calls [simp]: "calls (deliver evs s) = calls s"
  by (induction evs arbitrary: s) auto

lemma deliver_dg_connection [simp]: "dg_connection (deliver evs s) = dg_connection s"
  by (induction evs arbitrary: s) auto

lemma deliver_calls_update: "deliver evs (s\<lparr>calls := cs\<rparr>) = (deliver evs s)\<lparr>calls := cs\<rparr>"
  by (induction evs arbitrary: s) (auto simp: dispatch_calls_update)

lemma spec_chunks_Nil [simp]: "spec_chunks n [] = []"
  by (simp add: spec_chunks.simps)

lemma spec_chunks_Cons:
  "0 < n \<Longrightarrow> xs \<noteq> [] \<Longrightarrow> spec_chunks n xs = take n xs # spec_chunks n (drop n xs)"
  by (subst spec_chunks.simps) simp

lemma ceil_div_step:
  "0 < (l::nat) \<Longrightarrow> (l + 4095) div 4096 = Suc ((l - 4096 + 4095) div 4096)"
proof (cases "4096 \<le> l")
  case True
  then have "l + 4095 = (l - 4096 + 4095) + 4096" by simp
  then have "(l + 4095) div 4096 = ((l - 4096 + 4095) + 4096) div 4096" by simp
  also have "\<dots> = Suc ((l - 4096 + 4095) div 4096)" by (simp only: div_add_self2)
  finally show ?thesis .
next
  case False
  assume "0 < l"
  with False have "(l + 4095) div 4096 = 1"
    by (intro div_nat_eqI) simp_all
  with False show ?thesis by simp
qed

lemma spec_reads_step:
  "file \<noteq> [] \<Longrightarrow> spec_reads file = Suc (spec_reads (drop 4096 file))"
  unfolding spec_reads_def using ceil_div_step [of "length file"] by simp

lemma spec_read_events_Suc:
  "spec_read_events p k (Suc n) = script_at (read_events p) k [] @ spec_read_events p (Suc k) n"
  by (simp add: spec_read_events_def upt_conv_Cons del: upt_Suc)

lemma stream_unfold:
  "stream p k payload s =
     (case script_at (read_raises p) k None of
        Some e \<Rightarrow> (Some e, deliver (script_at (read_events p) k []) s)
      | None \<Rightarrow>
          if payload = [] then (None, deliver (script_at (read_events p) k []) s)
          else (case script_at (send_raises p) k None of
                  Some e \<Rightarrow>
                    (Some e, log_call (Send (take 4096 payload))
                               (deliver (script_at (read_events p) k []) s))
                | None \<Rightarrow>
                    stream p (Suc k) (drop 4096 payload)
                      (log_call (Send (take 4096 payload))
                         (deliver (script_at (read_events p) k []) s))))"
  by (subst stream.simps)
     (simp add: file_read_def chunk_size_def Let_def split: option.splits)

lemma stream_completed:
  "stream p k payload s = (None, s') \<Longrightarrow>
     s' = (deliver (spec_read_events p k (spec_reads payload)) s)
            \<lparr>calls := calls s @ map Send (spec_chunks chunk_size payload)\<rparr>"
proof (induction p k payload s arbitrary: s' rule: stream.induct)
  case (1 p k payload s)
  from "1.prems" have rd: "script_at (read_raises p) k None = None"
    by (subst (asm) stream_unfold) (simp split: option.splits)
  show ?case
  proof (cases "payload = []")
    case True
    with "1.prems" rd have eq: "s' = deliver (script_at (read_events p) k []) s"
      by (subst (asm) stream_unfold) simp
    then have "calls s = calls s'" by simp
    moreover have "s'\<lparr>calls := calls s'\<rparr> = s'" by simp
    ultimately have "s' = s'\<lparr>calls := calls s\<rparr>" by simp
    with True eq show ?thesis
      by (simp add: spec_reads_def spec_read_events_def)
  next
    case False
    then have ne: "take 4096 payload \<noteq> []" by simp
    from "1.prems" rd False have no_exn: "script_at (send_raises p) k None = None"
      by (subst (asm) stream_unfold) (simp split: option.splits)
    let ?s2 = "log_call (Send (take 4096 payload)) (deliver (script_at (read_events p) k []) s)"
    have rec: "stream p (Suc k) (drop 4096 payload) ?s2 = (None, s')"
      using "1.prems" rd False no_exn
      by (subst (asm) stream_unfold) simp
    have "s' = (deliver (spec_read_events p (Suc k) (spec_reads (drop 4096 payload))) ?s2)
            \<lparr>calls := calls ?s2 @ map Send (spec_chunks chunk_size (drop 4096 payload))\<rparr>"
      using "1.IH" [OF refl rd refl _ refl, of "s'"] ne no_exn rec
      by (simp add: file_read_def chunk_size_def)
    then show ?thesis
      using False
      by (simp add: spec_reads_step spec_read_events_Suc deliver_append log_call_def
          deliver_calls_update spec_chunks_Cons [of 4096 payload] chunk_size_def)
  qed
qed

lemma stream_calls:
  "\<exists>m. calls (snd (stream p k payload s)) =
         calls s @ map Send (take m (spec_chunks chunk_size payload))"
proof (induction p k payload s rule: stream.induct)
  case (1 p k payload s)
  let ?s2 = "log_call (Send (take 4096 payload)) (deliver (script_at (read_events p) k []) s)"
  have stop: "calls (snd (stream p k payload s)) = calls s \<Longrightarrow> ?case"
  proof -
    assume "calls (snd (stream p k payload s)) = calls s"
    then have "calls (snd (stream p k payload s)) =
        calls s @ map Send (take 0 (spec_chunks chunk_size payload))" by simp
    then show ?case by blast
  qed
  show ?case
  proof (cases "script_at (read_raises p) k None")
    case (Some e)
    then have "calls (snd (stream p k payload s)) = calls s"
      by (subst stream_unfold) simp
    then show ?thesis by (rule stop)
  next
    case None
    note rd = this
    show ?thesis
    proof (cases "payload = []")
      case True
      with rd have "calls (snd (stream p k payload s)) = calls s"
        by (subst stream_unfold) simp
      then show ?thesis by (rule stop)
    next
      case False
      then have ne: "take 4096 payload \<noteq> []" by simp
      show ?thesis
      proof (cases "script_at (send_raises p) k None")
        case (Some e)
        with rd False have "calls (snd (stream p k payload s)) = calls s @ [Send (take 4096 payload)]"
          by (subst stream_unfold) (simp add: log_call_def)
        with False have "calls (snd (stream p k payload s)) =
            calls s @ map Send (take 1 (spec_chunks chunk_size payload))"
          by (simp add: spec_chunks_Cons chunk_size_def)
        then show ?thesis by blast
      next
        case None
        with rd False have unf: "stream p k payload s = stream p (Suc k) (drop 4096 payload) ?s2"
          by (subst stream_unfold) simp
        from "1.IH" [OF refl rd refl _ refl None] ne
        obtain m where "calls (snd (stream p (Suc k) (drop 4096 payload) ?s2)) =
            calls ?s2 @ map Send (take m (spec_chunks chunk_size (drop 4096 payload)))"
          by (auto simp: file_read_def chunk_size_def)
        with False unf have "calls (snd (stream p k payload s)) =
            calls s @ map Send (take (Suc m) (spec_chunks chunk_size payload))"
          by (simp add: spec_chunks_Cons chunk_size_def log_call_def)
        then show ?thesis by blast
      qed
    qed
  qed
qed

lemma stream_dg_connection [simp]: "dg_connection (snd (stream p k payload s)) = dg_connection s"
proof (induction p k payload s rule: stream.induct)
  case (1 p k payload s)
  show ?case
  proof (cases "script_at (read_raises p) k None = None \<and> payload \<noteq> []
                \<and> script_at (send_raises p) k None = None")
    case True
    then have ne: "take 4096 payload \<noteq> []" by simp
    from True have "stream p k payload s = stream p (Suc k) (drop 4096 payload)
        (log_call (Send (take 4096 payload)) (deliver (script_at (read_events p) k []) s))"
      by (subst stream_unfold) simp
    moreover from "1.IH" [OF refl _ refl _ refl] True ne
    have "dg_connection (snd (stream p (Suc k) (drop 4096 payload)
        (log_call (Send (take 4096 payload)) (deliver (script_at (read_events p) k []) s))))
        = dg_connection s"
      by (simp add: file_read_def chunk_size_def log_call_def)
    ultimately show ?thesis by simp
  next
    case False
    then show ?thesis
      by (subst stream_unfold) (auto simp: log_call_def split: option.splits)
  qed
qed

text \<open>When no read and no send raises, the loop runs to its end.\<close>

lemma script_at_None: "set xs \<subseteq> {None} \<Longrightarrow> script_at xs k None = None"
  by (auto simp: script_at_def dest: nth_mem)

lemma stream_no_raise:
  "set (read_raises p) \<subseteq> {None} \<Longrightarrow> set (send_raises p) \<subseteq> {None}
     \<Longrightarrow> fst (stream p k payload s) = None"
proof (induction p k payload s rule: stream.induct)
  case (1 p k payload s)
  let ?s2 = "log_call (Send (take 4096 payload)) (deliver (script_at (read_events p) k []) s)"
  have rd: "script_at (read_raises p) k None = None"
    using "1.prems"(1) by (rule script_at_None)
  have sd: "script_at (send_raises p) k None = None"
    using "1.prems"(2) by (rule script_at_None)
  show ?case
  proof (cases "payload = []")
    case True
    with rd show ?thesis by (subst stream_unfold) simp
  next
    case False
    then have ne: "take 4096 payload \<noteq> []" by simp
    from rd sd False have "stream p k payload s = stream p (Suc k) (drop 4096 payload) ?s2"
      by (subst stream_unfold) simp
    moreover have "fst (stream p (Suc k) (drop 4096 payload) ?s2) = None"
      using "1.IH" [OF refl rd refl _ refl sd] ne "1.prems"
      by (simp add: file_read_def chunk_size_def)
    ultimately show ?thesis by simp
  qed
qed

lemma concat_spec_chunks: "0 < n \<Longrightarrow> concat (spec_chunks n xs) = xs"
proof (induction n xs rule: spec_chunks.induct)
  case (1 n xs)
  then show ?case by (cases "xs = []") (simp_all add: spec_chunks_Cons)
qed

lemma length_spec_chunks: "length (spec_chunks 4096 xs) = (length xs + 4095) div 4096"
proof (induction "4096::nat" xs rule: spec_chunks.induct)
  case (1 xs)
  show ?case
  proof (cases "xs = []")
    case True
    then show ?thesis by simp
  next
    case False
    with 1 have "length (spec_chunks 4096 (drop 4096 xs)) = (length xs - 4096 + 4095) div 4096"
      by simp
    with False show ?thesis
      using ceil_div_step [of "length xs"] by (simp add: spec_chunks_Cons)
  qed
qed

lemma spec_chunks_bounds:
  "c \<in> set (spec_chunks n xs) \<Longrightarrow> c \<noteq> [] \<and> length c \<le> n"
proof (induction n xs rule: spec_chunks.induct)
  case (1 n xs)
  then show ?case
    by (cases "n = 0 \<or> xs = []") (auto simp: spec_chunks.simps [of n xs])
qed

lemma spec_chunks_full:
  "Suc i < length (spec_chunks n xs) \<Longrightarrow> length (spec_chunks n xs ! i) = n"
proof (induction n xs arbitrary: i rule: spec_chunks.induct)
  case (1 n xs)
  show ?case
  proof (cases "n = 0 \<or> xs = []")
    case True
    with "1.prems" show ?thesis by (simp add: spec_chunks.simps [of n xs])
  next
    case False
    then have unf: "spec_chunks n xs = take n xs # spec_chunks n (drop n xs)"
      by (simp add: spec_chunks_Cons)
    show ?thesis
    proof (cases i)
      case 0
      with "1.prems" unf have "spec_chunks n (drop n xs) \<noteq> []" by auto
      then have "drop n xs \<noteq> []" by auto
      then have "n \<le> length xs" by simp
      with 0 unf show ?thesis by simp
    next
      case (Suc j)
      with "1.prems" unf have "Suc j < length (spec_chunks n (drop n xs))" by simp
      with "1.IH" False have "length (spec_chunks n (drop n xs) ! j) = n" by blast
      with Suc unf show ?thesis by simp
    qed
  qed
qed

lemma sent_chunks_append: "sent_chunks (cs @ ds) = sent_chunks cs @ sent_chunks ds"
  by (induction cs rule: sent_chunks.induct) simp_all

lemma sent_chunks_Send: "sent_chunks (map Send xs) = xs"
  by (induction xs) simp_all

lemma deliver_dg_update:
  "deliver evs (s\<lparr>dg_connection := b\<rparr>) = (deliver evs s)\<lparr>dg_connection := b\<rparr>"
proof (induction evs arbitrary: s)
  case Nil
  show ?case by simp
next
  case (Cons ev evs)
  have "dispatch (s\<lparr>dg_connection := b\<rparr>) ev = (dispatch s ev)\<lparr>dg_connection := b\<rparr>"
    by (cases ev) (auto simp: on_message_def on_error_def split: list.splits)
  with Cons show ?case by simp
qed

lemma initial_fields [simp]:
  "calls initial = []" "dg_connection initial = False"
  "transcription_result initial = []" "deepgram_error_message initial = None"
  by (simp_all add: initial_def)

lemma run_session_completed:
  assumes "run_session p payload initial = (None, s)"
  shows "s = (deliver (spec_events_of_run p payload) initial)
               \<lparr>dg_connection := True,
                calls := Start # map Send (spec_chunks chunk_size payload) @ [Finish]\<rparr>"
proof -
  from assms obtain s3 where
    strm: "stream p 0 payload (deliver (start_events p) (log_call Start (initial\<lparr>dg_connection := True\<rparr>)))
             = (None, s3)"
    and s: "s = deliver (sleep_events p) (deliver (finish_events p) (log_call Finish s3))"
    by (auto simp: run_session_def Let_def split: option.splits sum.splits if_splits prod.splits)
  from stream_completed [OF strm] s show ?thesis
    by (simp add: spec_events_of_run_def deliver_append log_call_def deliver_calls_update
        deliver_dg_update)
qed

lemmas run_defs =
  transcribe_audio_def run_session_def stream.simps deliver_def log_call_def script_at_def
  file_read_def chunk_size_def on_message_def on_error_def evaluate_def truthy_def
  finish_if_connected_def is_connected_def initial_def PLACEHOLDER_KEY_def
  DEEPGRAM_API_KEY_def quiet_provider_def Let_def

lemma completed_result:
  assumes "key \<noteq> []" "key \<noteq> PLACEHOLDER_KEY" "fst (run_session p payload initial) = None"
  shows "fst (transcribe_audio key p payload) = Inr (evaluate (snd (run_session p payload initial)))"
    and "snd (transcribe_audio key p payload) =
           finish_if_connected p (snd (run_session p payload initial))"
  using assms by (auto simp: transcribe_audio_def split: prod.splits)

lemma completed_state:
  assumes "fst (run_session p payload initial) = None"
  shows "snd (run_session p payload initial) =
           (deliver (spec_events_of_run p payload) initial)
             \<lparr>dg_connection := True,
              calls := Start # map Send (spec_chunks chunk_size payload) @ [Finish]\<rparr>"
  using assms run_session_completed [of p payload "snd (run_session p payload initial)"]
  by (cases "run_session p payload initial") simp

lemma completed_vars:
  assumes "fst (run_session p payload initial) = None"
  shows "transcription_result (snd (run_session p payload initial))
           = spec_join (spec_fragments (spec_events_of_run p payload))"
    and "deepgram_error_message (snd (run_session p payload initial))
           = (if spec_error_messages (spec_events_of_run p payload) = [] then None
              else Some (last (spec_error_messages (spec_events_of_run p payload))))"
  using completed_state [OF assms] by (simp_all add: transcript_deliver error_deliver)

lemma spec_error_messages_append:
  "spec_error_messages (evs @ evs') = spec_error_messages evs @ spec_error_messages evs'"
  by (induction evs rule: spec_error_messages.induct) simp_all

lemma sent_chunks_close [simp]: "sent_chunks (spec_close_if_open b) = []"
  by (simp add: spec_close_if_open_def)

lemma streaming_no_query:
  "list_all streaming cs \<Longrightarrow> filter (\<lambda>c. c = IsConnected True \<or> c = IsConnected False) cs = []"
  by (induction cs) (auto elim: streaming.elims)

lemma streaming_map_Send [simp]: "list_all streaming (map Send xs)"
  by (induction xs) simp_all

text \<open>The log of the \<open>try\<close> block: \<open>start\<close> and sends, then the \<open>finish\<close> of line 124 when
  the loop has run to its end.\<close>

lemma run_session_shape:
  "\<exists>cs. list_all streaming cs
     \<and> (calls (snd (run_session p payload initial)) = cs
          \<or> calls (snd (run_session p payload initial)) = cs @ [Finish])
     \<and> (fst (run_session p payload initial) = None
          \<longrightarrow> calls (snd (run_session p payload initial)) = cs @ [Finish])
     \<and> (\<not> dg_connection (snd (run_session p payload initial))
          \<longrightarrow> calls (snd (run_session p payload initial)) = [])"
proof -
  let ?s2 = "deliver (start_events p) (log_call Start (initial\<lparr>dg_connection := True\<rparr>))"
  let ?s3 = "snd (stream p 0 payload ?s2)"
  obtain m where m: "calls ?s3 = calls ?s2 @ map Send (take m (spec_chunks chunk_size payload))"
    using stream_calls [of p 0 payload ?s2] by (rule exE)
  have c2: "calls ?s2 = [Start]" by (simp add: log_call_def)
  have d: "dg_connection ?s3" by (simp add: log_call_def)
  have d2: "dg_connection ?s2" by (simp add: log_call_def)
  let ?cs = "Start # map Send (take m (spec_chunks chunk_size payload))"
  have cs: "list_all streaming ?cs" by simp
  have c3: "calls ?s3 = ?cs" using m c2 by simp
  have early: "fst (run_session p payload initial) \<noteq> None \<Longrightarrow>
      calls (snd (run_session p payload initial)) = cs' \<Longrightarrow> list_all streaming cs' \<Longrightarrow>
      (\<not> dg_connection (snd (run_session p payload initial)) \<Longrightarrow> cs' = []) \<Longrightarrow> ?thesis"
    for cs'
    by (intro exI [of _ cs']) auto
  show ?thesis
  proof (cases "client_raises p")
    case (Some e)
    then have "run_session p payload initial = (Some e, initial)"
      by (simp add: run_session_def)
    then show ?thesis by (intro early [of "[]"]) simp_all
  next
    case None
    note cl = this
    show ?thesis
    proof (cases "register_raises p")
      case (Some e)
      with cl have "run_session p payload initial = (Some e, initial\<lparr>dg_connection := True\<rparr>)"
        by (simp add: run_session_def)
      then show ?thesis by (intro early [of "[]"]) simp_all
    next
      case None
      note rg = this
      show ?thesis
      proof (cases "start_result p")
        case (Inl e)
        with cl rg have "run_session p payload initial = (Some e, ?s2)"
          by (simp add: run_session_def)
        with c2 d2 show ?thesis by (intro early [of "[Start]"]) simp_all
      next
        case (Inr started)
        show ?thesis
        proof (cases started)
          case False
          with cl rg Inr have "fst (run_session p payload initial) \<noteq> None"
            and "snd (run_session p payload initial) = ?s2"
            by (simp_all add: run_session_def Let_def)
          with c2 d2 show ?thesis by (intro early [of "[Start]"]) simp_all
        next
          case True
          show ?thesis
          proof (cases "fst (stream p 0 payload ?s2)")
            case (Some e)
            with cl rg Inr True have "fst (run_session p payload initial) = Some e"
              and "snd (run_session p payload initial) = ?s3"
              by (auto simp: run_session_def Let_def split: prod.splits)
            with c3 d show ?thesis by (intro early [of ?cs]) simp_all
          next
            case None
            with cl rg Inr True have
              "snd (run_session p payload initial) = deliver (finish_events p) (log_call Finish ?s3)
               \<or> snd (run_session p payload initial)
                    = deliver (sleep_events p) (deliver (finish_events p) (log_call Finish ?s3))"
              by (auto simp: run_session_def Let_def split: prod.splits option.splits)
            then have "calls (snd (run_session p payload initial)) = ?cs @ [Finish]"
              and "dg_connection (snd (run_session p payload initial))"
              using c3 d by (auto simp: log_call_def)
            with cs show ?thesis by (intro exI [of _ ?cs]) simp
          qed
        qed
      qed
    qed
  qed
qed

lemma run_session_no_query:
  "filter (\<lambda>c. c = IsConnected True \<or> c = IsConnected False)
     (calls (snd (run_session p payload initial))) = []"
proof -
  from run_session_shape [of p payload] obtain cs where
    sh: "list_all streaming cs
      \<and> (calls (snd (run_session p payload initial)) = cs
           \<or> calls (snd (run_session p payload initial)) = cs @ [Finish])
      \<and> (fst (run_session p payload initial) = None
           \<longrightarrow> calls (snd (run_session p payload initial)) = cs @ [Finish])
      \<and> (\<not> dg_connection (snd (run_session p payload initial))
           \<longrightarrow> calls (snd (run_session p payload initial)) = [])"
    by (rule exE)
  then have "list_all streaming cs" by (rule conjunct1)
  then have "filter (\<lambda>c. c = IsConnected True \<or> c = IsConnected False) cs = []"
    by (rule streaming_no_query)
  moreover from sh have "calls (snd (run_session p payload initial)) = cs
      \<or> calls (snd (run_session p payload initial)) = cs @ [Finish]"
    by (elim conjE)
  ultimately show ?thesis by (elim disjE) simp_all
qed

lemma finish_if_connected_calls:
  "calls (finish_if_connected p s) =
     (if dg_connection s
      then calls s @ spec_close_if_open
             (script_at (connected_answers p)
                (length (filter (\<lambda>c. c = IsConnected True \<or> c = IsConnected False) (calls s)))
                False)
      else calls s)"
  by (simp add: finish_if_connected_def is_connected_def log_call_def spec_close_if_open_def
      Let_def)

lemma finish_if_connected_fields [simp]:
  "dg_connection (finish_if_connected p s) = dg_connection s"
  "transcription_result (finish_if_connected p s) = transcription_result s"
  "deepgram_error_message (finish_if_connected p s) = deepgram_error_message s"
  by (simp_all add: finish_if_connected_def log_call_def Let_def)

lemma query_count_close [simp]:
  "length (filter (\<lambda>c. c = IsConnected True \<or> c = IsConnected False) (spec_close_if_open b)) = 1"
  by (cases b) (simp_all add: spec_close_if_open_def)

text \<open>The log after one and after two guarded closes at the end of a session.\<close>

lemma cleanup_once:
  "calls (finish_if_connected p (snd (run_session p payload initial))) =
     (if dg_connection (snd (run_session p payload initial))
      then calls (snd (run_session p payload initial))
             @ spec_close_if_open (script_at (connected_answers p) 0 False)
      else calls (snd (run_session p payload initial)))"
  by (simp add: finish_if_connected_calls run_session_no_query)

lemma cleanup_twice:
  "calls (finish_if_connected p (finish_if_connected p (snd (run_session p payload initial)))) =
     (if dg_connection (snd (run_session p payload initial))
      then calls (snd (run_session p payload initial))
             @ spec_close_if_open (script_at (connected_answers p) 0 False)
             @ spec_close_if_open (script_at (connected_answers p) 1 False)
      else calls (snd (run_session p payload initial)))"
  by (simp add: finish_if_connected_calls run_session_no_query)

lemma contains_sublist: "contains needle haystack \<longleftrightarrow> sublist needle haystack"
  by (induction haystack) (simp_all add: sublist_Cons_right)

lemma handler_paths:
  assumes "key \<noteq> []" and "key \<noteq> PLACEHOLDER_KEY"
  shows "transcribe_audio key p payload =
     (case fst (run_session p payload initial) of
        None \<Rightarrow> (Inr (evaluate (snd (run_session p payload initial))),
                 finish_if_connected p (snd (run_session p payload initial)))
      | Some (DeepgramError text) \<Rightarrow>
          (Inl (HTTPException 500 (api_error_detail text)),
           finish_if_connected p (finish_if_connected p (snd (run_session p payload initial))))
      | Some (HTTPException code detail) \<Rightarrow>
          (Inl (HTTPException code detail),
           finish_if_connected p (snd (run_session p payload initial)))
      | Some (OtherException text) \<Rightarrow>
          (Inl (HTTPException 500 (''An unexpected server error occurred: '' @ text)),
           finish_if_connected p (finish_if_connected p (snd (run_session p payload initial))))
      | Some (BaseException text) \<Rightarrow>
          (Inl (BaseException text),
           finish_if_connected p (snd (run_session p payload initial))))"
  using assms
  by (simp add: transcribe_audio_def split: prod.splits option.splits exn.splits)

lemma spec_cleanup_simps:
  "spec_cleanup p 0 = []"
  "spec_cleanup p (Suc n) =
     spec_cleanup p n @ spec_close_if_open (script_at (connected_answers p) n False)"
  by (simp_all add: spec_cleanup_def)

text \<open>The handler's log on every path: the log of the \<open>try\<close> block, then the close
  attempts.\<close>

lemma cleanup_log:
  assumes "key \<noteq> []" and "key \<noteq> PLACEHOLDER_KEY"
  shows "calls (snd (transcribe_audio key p payload)) =
           calls (snd (run_session p payload initial))
           @ (if dg_connection (snd (run_session p payload initial))
              then spec_cleanup p (spec_close_attempts (fst (run_session p payload initial)))
              else [])"
proof (cases "fst (run_session p payload initial)")
  case None
  then show ?thesis
    by (simp add: handler_paths [OF assms] cleanup_once spec_cleanup_simps)
next
  case (Some e)
  then show ?thesis
    by (cases e)
       (simp_all add: handler_paths [OF assms] cleanup_once cleanup_twice spec_cleanup_simps
          numeral_2_eq_2)
qed

lemma handler_result:
  assumes "key \<noteq> []" and "key \<noteq> PLACEHOLDER_KEY"
  shows "isl (fst (transcribe_audio key p payload)) = (fst (run_session p payload initial) \<noteq> None)"
    and "dg_connection (snd (transcribe_audio key p payload))
           = dg_connection (snd (run_session p payload initial))"
proof -
  show "isl (fst (transcribe_audio key p payload)) = (fst (run_session p payload initial) \<noteq> None)"
  proof (cases "fst (run_session p payload initial)")
    case None
    then show ?thesis by (simp add: handler_paths [OF assms])
  next
    case (Some e)
    then show ?thesis by (cases e) (simp_all add: handler_paths [OF assms])
  qed
  show "dg_connection (snd (transcribe_audio key p payload))
           = dg_connection (snd (run_session p payload initial))"
  proof (cases "fst (run_session p payload initial)")
    case None
    then show ?thesis by (simp add: handler_paths [OF assms])
  next
    case (Some e)
    then show ?thesis by (cases e) (simp_all add: handler_paths [OF assms])
  qed
qed

text \<open>When the session starts and no read and no send raises, the \<open>try\<close> block logs
  \<open>start\<close>, one send per chunk and the \<open>finish\<close> of line 124; when \<open>finish\<close> and the sleep
  do not raise either, the handler returns a body.\<close>

lemma streamed_log:
  assumes "client_raises p = None" and "register_raises p = None"
    and "start_result p = Inr True"
    and "set (read_raises p) \<subseteq> {None}" and "set (send_raises p) \<subseteq> {None}"
  shows "calls (snd (run_session p payload initial))
           = Start # map Send (spec_chunks chunk_size payload) @ [Finish]"
    and "finish_raises p = None \<Longrightarrow> sleep_raises p = None
           \<Longrightarrow> fst (run_session p payload initial) = None"
proof -
  let ?s2 = "deliver (start_events p) (log_call Start (initial\<lparr>dg_connection := True\<rparr>))"
  have "fst (stream p 0 payload ?s2) = None"
    using assms(4,5) by (rule stream_no_raise)
  then obtain s3 where strm: "stream p 0 payload ?s2 = (None, s3)"
    by (cases "stream p 0 payload ?s2") simp
  from stream_completed [OF strm]
  have c3: "calls s3 = Start # map Send (spec_chunks chunk_size payload)"
    by (simp add: log_call_def)
  from assms(1-3) strm have
    "snd (run_session p payload initial) = deliver (finish_events p) (log_call Finish s3)
     \<or> snd (run_session p payload initial)
          = deliver (sleep_events p) (deliver (finish_events p) (log_call Finish s3))"
    by (auto simp: run_session_def Let_def split: option.splits)
  with c3 show "calls (snd (run_session p payload initial))
           = Start # map Send (spec_chunks chunk_size payload) @ [Finish]"
    by (auto simp: log_call_def)
  show "finish_raises p = None \<Longrightarrow> sleep_raises p = None
           \<Longrightarrow> fst (run_session p payload initial) = None"
    using assms(1-3) strm by (simp add: run_session_def Let_def)
qed

lemma body_is_returned:
  assumes "key \<noteq> []" and "key \<noteq> PLACEHOLDER_KEY"
    and "client_raises p = None" and "register_raises p = None"
    and "start_result p = Inr True"
    and "set (read_raises p) \<subseteq> {None}" and "set (send_raises p) \<subseteq> {None}"
    and "finish_raises p = None" and "sleep_raises p = None"
  shows "fst (transcribe_audio key p payload)
           = Inr (evaluate (snd (run_session p payload initial)))"
  using completed_result(1) [OF assms(1,2) streamed_log(2) [OF assms(3-9)]] .

lemma sent_chunks_cleanup [simp]: "sent_chunks (spec_cleanup p n) = []"
  by (induction n) (simp_all add: spec_cleanup_simps sent_chunks_append)

subsection \<open>Counting in the log\<close>

lemma closes_streaming: "list_all streaming cs \<Longrightarrow> closes (cs @ t) = closes t"
  by (induction cs) (auto simp: closes_def elim: streaming.elims)

lemma positive_checks_streaming:
  "list_all streaming cs \<Longrightarrow> positive_checks (cs @ t) = positive_checks t"
  by (induction cs) (auto simp: positive_checks_def elim: streaming.elims)

lemma unguarded_streaming:
  "list_all streaming cs \<Longrightarrow> unguarded False (cs @ t) = unguarded False t"
  by (induction cs) (auto elim: streaming.elims)

lemma no_use_streaming:
  "list_all streaming cs \<Longrightarrow> no_use_after_close (cs @ t) = no_use_after_close t"
  by (induction cs) (auto elim: streaming.elims)

lemma closes_append: "closes (xs @ ys) = closes xs + closes ys"
  by (simp add: closes_def)

lemma positive_checks_append: "positive_checks (xs @ ys) = positive_checks xs + positive_checks ys"
  by (simp add: positive_checks_def)

lemma closes_cleanup:
  "closes (spec_cleanup p n) = positive_checks (spec_cleanup p n)"
  "closes (spec_cleanup p n) \<le> n"
proof (induction n)
  case 0
  show "closes (spec_cleanup p 0) = positive_checks (spec_cleanup p 0)"
    and "closes (spec_cleanup p 0) \<le> 0"
    by (simp_all add: spec_cleanup_simps closes_def positive_checks_def)
next
  case (Suc n)
  let ?b = "script_at (connected_answers p) n False"
  have one: "closes (spec_close_if_open ?b) = positive_checks (spec_close_if_open ?b)"
    "closes (spec_close_if_open ?b) \<le> 1"
    by (cases ?b; simp add: spec_close_if_open_def closes_def positive_checks_def)+
  from Suc one show "closes (spec_cleanup p (Suc n)) = positive_checks (spec_cleanup p (Suc n))"
    and "closes (spec_cleanup p (Suc n)) \<le> Suc n"
    by (simp_all add: spec_cleanup_simps closes_append positive_checks_append)
qed

lemma unguarded_close:
  "unguarded g (xs @ spec_close_if_open b @ t) = unguarded g xs + unguarded False t"
  by (induction g xs rule: unguarded.induct) (simp_all add: spec_close_if_open_def)

lemma unguarded_cleanup: "unguarded g (xs @ spec_cleanup p n) = unguarded g xs"
proof (induction n)
  case 0
  show ?case by (simp add: spec_cleanup_simps)
next
  case (Suc n)
  have "unguarded g (xs @ spec_cleanup p (Suc n))
      = unguarded g ((xs @ spec_cleanup p n)
          @ spec_close_if_open (script_at (connected_answers p) n False) @ [])"
    by (simp add: spec_cleanup_simps)
  also have "\<dots> = unguarded g (xs @ spec_cleanup p n) + unguarded False []"
    by (rule unguarded_close)
  finally show ?case using Suc by simp
qed

lemma cleanup_not_streaming: "filter streaming (spec_cleanup p n) = []"
  by (induction n) (simp_all add: spec_cleanup_simps spec_close_if_open_def)

lemma no_use_append:
  "no_use_after_close xs \<Longrightarrow> filter streaming ys = [] \<Longrightarrow> no_use_after_close (xs @ ys)"
proof (induction xs rule: no_use_after_close.induct)
  case 1
  then show ?case
  proof (induction ys rule: no_use_after_close.induct)
    case (2 cs)
    then show ?case by simp
  qed (simp_all split: if_splits)
qed simp_all

lemma checked_last_close: "checked_last (cs @ spec_close_if_open b)"
  by (cases b) (simp_all add: checked_last_def spec_close_if_open_def)

lemma checked_last_cleanup: "0 < n \<Longrightarrow> checked_last (xs @ spec_cleanup p n)"
proof (cases n)
  case (Suc m)
  have "checked_last ((xs @ spec_cleanup p m)
      @ spec_close_if_open (script_at (connected_answers p) m False))"
    by (rule checked_last_close)
  with Suc show ?thesis by (simp add: spec_cleanup_simps)
qed simp

text \<open>The log of the \<open>try\<close> block has no check and at most one close, its last call.\<close>

lemma session_log_counts:
  assumes "list_all streaming cs" and "l = cs \<or> l = cs @ [Finish]"
  shows "closes l = (if l = cs @ [Finish] then 1 else 0)"
    and "unguarded False l = closes l"
    and "positive_checks l = 0"
    and "no_use_after_close l"
proof -
  have a: "closes cs = 0" "positive_checks cs = 0" "unguarded False cs = 0"
    "no_use_after_close cs"
    using closes_streaming [OF assms(1), of "[]"] positive_checks_streaming [OF assms(1), of "[]"]
      unguarded_streaming [OF assms(1), of "[]"] no_use_streaming [OF assms(1), of "[]"]
    by (simp_all add: closes_def positive_checks_def)
  have b: "closes (cs @ [Finish]) = 1" "positive_checks (cs @ [Finish]) = 0"
    "unguarded False (cs @ [Finish]) = 1" "no_use_after_close (cs @ [Finish])"
    using closes_streaming [OF assms(1), of "[Finish]"]
      positive_checks_streaming [OF assms(1), of "[Finish]"]
      unguarded_streaming [OF assms(1), of "[Finish]"] no_use_streaming [OF assms(1), of "[Finish]"]
    by (simp_all add: closes_def positive_checks_def)
  from assms(2) a b show "closes l = (if l = cs @ [Finish] then 1 else 0)"
    and "unguarded False l = closes l" and "positive_checks l = 0" and "no_use_after_close l"
    by auto
qed

section \<open>The claims\<close>

subsection \<open>Accumulating the transcript\<close>

text \<open>
  C1 (amended). For every sequence of events delivered to the callbacks of a fresh
  request, whose non-empty fragments are \<open>F1..Fn\<close> in arrival order, the accumulated
  transcript is \<open>F1 + " " + F2 + ... + " " + Fn\<close>. An event with an empty fragment leaves
  the state unchanged and contributes no separator, so the transcript begins with
  \<open>F1\<close> and ends with \<open>Fn\<close>: it has a leading or a trailing space only when \<open>F1\<close> begins
  or \<open>Fn\<close> ends with one.
\<close>

theorem transcript_is_joined_fragments:
  "transcription_result (deliver evs initial) = spec_join (spec_fragments evs)
   \<and> dispatch s (Transcript ([] # alternatives)) = s
   \<and> (spec_fragments evs \<noteq> [] \<longrightarrow>
        prefix (hd (spec_fragments evs)) (transcription_result (deliver evs initial))
        \<and> suffix (last (spec_fragments evs)) (transcription_result (deliver evs initial)))"
  by (simp add: transcript_deliver on_message_def spec_join_prefix spec_join_suffix)

theorem transcript_is_joined_fragments_witness:
  "spec_fragments [Transcript [''hello''], Transcript [''''], Open, Transcript [''world'', ''word'']]
     = [''hello'', ''world'']
   \<and> transcription_result
        (deliver [Transcript [''hello''], Transcript [''''], Open, Transcript [''world'', ''word'']]
           initial) = ''hello world''
   \<and> prefix ''hello''
        (transcription_result
          (deliver [Transcript [''hello''], Transcript [''''], Open, Transcript [''world'', ''word'']]
             initial))
   \<and> suffix ''world''
        (transcription_result
          (deliver [Transcript [''hello''], Transcript [''''], Open, Transcript [''world'', ''word'']]
             initial))"
  using transcript_is_joined_fragments
    [of "[Transcript [''hello''], Transcript [''''], Open, Transcript [''world'', ''word'']]"
        initial "[]"]
  by (simp add: on_message_def)

text \<open>As the claim is written, the result never has a leading or a trailing space.
  A single fragment that begins and ends with a space is stored as it is.\<close>

theorem leading_space_counterexample:
  "transcription_result (deliver [Transcript ['' hi '']] initial) = '' hi ''
   \<and> hd (transcription_result (deliver [Transcript ['' hi '']] initial)) = CHR '' ''
   \<and> last (transcription_result (deliver [Transcript ['' hi '']] initial)) = CHR '' ''"
  by (simp add: on_message_def initial_def)

subsection \<open>The provider's error events\<close>

text \<open>
  C9. The handler retains at most one error message (the variable holds one optional
  string). After an error event the retained message is that event's message, and
  after any sequence of events it is the message of the last error event of the
  sequence, whatever was retained before; without an error event it is unchanged.
\<close>

theorem last_error_wins:
  "deepgram_error_message (dispatch s (Error (Some m))) = Some m
   \<and> deepgram_error_message (deliver evs s) =
       (if spec_error_messages evs = [] then deepgram_error_message s
        else Some (last (spec_error_messages evs)))"
  by (simp add: error_deliver on_error_def)

theorem last_error_wins_witness:
  "deepgram_error_message (dispatch initial (Error (Some ''first''))) = Some ''first''
   \<and> deepgram_error_message
        (deliver [Error (Some ''first''), Transcript [''hi''], Error (Some ''second'')] initial)
       = Some ''second''"
  using last_error_wins
    [of initial "''first''" "[Error (Some ''first''), Transcript [''hi''], Error (Some ''second'')]"]
  by simp

subsection \<open>The configuration check\<close>

text \<open>
  C5. When the environment has no credential, so that the placeholder is used, or
  has the placeholder itself or the empty string, the handler raises
  \<open>HTTPException(500, "Deepgram API key not configured.")\<close>; no connection object is
  created and no call is made on the provider.
\<close>

theorem unconfigured_key_rejected:
  assumes "env = None \<or> env = Some PLACEHOLDER_KEY \<or> env = Some ''''"
  shows "fst (transcribe_audio (DEEPGRAM_API_KEY env) p payload)
           = Inl (HTTPException 500 ''Deepgram API key not configured.'')
         \<and> calls (snd (transcribe_audio (DEEPGRAM_API_KEY env) p payload)) = []
         \<and> \<not> dg_connection (snd (transcribe_audio (DEEPGRAM_API_KEY env) p payload))"
  using assms by (auto simp: transcribe_audio_def DEEPGRAM_API_KEY_def)

theorem unconfigured_key_rejected_witness:
  "fst (transcribe_audio (DEEPGRAM_API_KEY None) quiet_provider [1, 2, 3])
     = Inl (HTTPException 500 ''Deepgram API key not configured.'')
   \<and> calls (snd (transcribe_audio (DEEPGRAM_API_KEY None) quiet_provider [1, 2, 3])) = []
   \<and> \<not> dg_connection (snd (transcribe_audio (DEEPGRAM_API_KEY None) quiet_provider [1, 2, 3]))"
  using unconfigured_key_rejected [of None quiet_provider "[1, 2, 3]"] by simp

subsection \<open>The final evaluation\<close>

text \<open>
  C6. When the request reaches the final evaluation (line 131) with an empty
  transcript accumulator and no captured error message, the handler returns the body
  \<open>{"transcription": "", "error": "No speech detected or empty audio."}\<close>.
\<close>

theorem no_speech_body:
  assumes "key \<noteq> []" and "key \<noteq> PLACEHOLDER_KEY"
    and "run_session p payload initial = (None, s)"
    and "transcription_result s = []" and "deepgram_error_message s = None"
  shows "fst (transcribe_audio key p payload)
           = Inr \<lparr>transcription = '''', error = Some ''No speech detected or empty audio.''\<rparr>"
  using assms by (simp add: transcribe_audio_def evaluate_def truthy_def)

theorem no_speech_body_witness:
  "run_session quiet_provider [] initial
     = (None, \<lparr>dg_connection = True, transcription_result = '''',
               deepgram_error_message = None, calls = [Start, Finish]\<rparr>)
   \<and> fst (transcribe_audio ''secret'' quiet_provider [])
       = Inr \<lparr>transcription = '''', error = Some ''No speech detected or empty audio.''\<rparr>"
proof -
  have run: "run_session quiet_provider [] initial
     = (None, \<lparr>dg_connection = True, transcription_result = '''',
               deepgram_error_message = None, calls = [Start, Finish]\<rparr>)"
    by (simp add: run_defs)
  from no_speech_body [OF _ _ run, of "''secret''"] run show ?thesis
    by (simp add: PLACEHOLDER_KEY_def)
qed

text \<open>
  C2 (amended). When the request reaches the final evaluation and at least one error
  event was delivered before it, the last of them with a non-empty message, the
  handler returns the body \<open>{"transcription": "", "error": "Deepgram error: <last
  message>"}\<close>, whatever transcript was accumulated.
\<close>

theorem captured_error_body:
  assumes "key \<noteq> []" and "key \<noteq> PLACEHOLDER_KEY"
    and "fst (run_session p payload initial) = None"
    and "spec_error_messages (spec_events_of_run p payload) \<noteq> []"
    and "last (spec_error_messages (spec_events_of_run p payload)) \<noteq> []"
  shows "fst (transcribe_audio key p payload)
           = Inr \<lparr>transcription = '''',
                  error = Some (''Deepgram error: ''
                            @ last (spec_error_messages (spec_events_of_run p payload)))\<rparr>"
  using assms completed_vars(2) [OF assms(3)]
  by (simp add: completed_result(1) evaluate_def truthy_def)

theorem captured_error_body_witness:
  "fst (run_session
          (quiet_provider\<lparr>start_events := [Transcript [''hello'']],
                           sleep_events := [Error (Some ''rate limit''), Error (Some ''closed'')]\<rparr>)
          [1, 2, 3] initial) = None
   \<and> spec_error_messages
        (spec_events_of_run
           (quiet_provider\<lparr>start_events := [Transcript [''hello'']],
                            sleep_events := [Error (Some ''rate limit''), Error (Some ''closed'')]\<rparr>)
           [1, 2, 3]) = [''rate limit'', ''closed'']
   \<and> fst (transcribe_audio ''secret''
          (quiet_provider\<lparr>start_events := [Transcript [''hello'']],
                           sleep_events := [Error (Some ''rate limit''), Error (Some ''closed'')]\<rparr>)
          [1, 2, 3])
       = Inr \<lparr>transcription = '''', error = Some ''Deepgram error: closed''\<rparr>"
proof -
  let ?p = "quiet_provider\<lparr>start_events := [Transcript [''hello'']],
                           sleep_events := [Error (Some ''rate limit''), Error (Some ''closed'')]\<rparr>"
  have run: "fst (run_session ?p [1, 2, 3] initial) = None"
    by (simp add: run_defs)
  have msgs: "spec_error_messages (spec_events_of_run ?p [1, 2, 3]) = [''rate limit'', ''closed'']"
    by (simp add: spec_events_of_run_def spec_read_events_def spec_reads_def quiet_provider_def
        script_at_def)
  from captured_error_body [of "''secret''" ?p "[1, 2, 3]"] run msgs show ?thesis
    by (simp add: PLACEHOLDER_KEY_def)
qed

text \<open>
  As the claim is written, one error event before the evaluation is enough. An error
  event whose message is the empty string is captured, and then tested as false at
  line 131: the handler returns the transcript, with no error.
\<close>

theorem empty_error_message_counterexample:
  "spec_error_messages
     (spec_events_of_run
        (quiet_provider\<lparr>start_events := [Error (Some '''')],
                         sleep_events := [Transcript [''hello'']]\<rparr>) []) = ['''']
   \<and> fst (run_session
          (quiet_provider\<lparr>start_events := [Error (Some '''')],
                           sleep_events := [Transcript [''hello'']]\<rparr>) [] initial) = None
   \<and> deepgram_error_message
        (snd (run_session
          (quiet_provider\<lparr>start_events := [Error (Some '''')],
                           sleep_events := [Transcript [''hello'']]\<rparr>) [] initial)) = Some ''''
   \<and> fst (transcribe_audio ''secret''
          (quiet_provider\<lparr>start_events := [Error (Some '''')],
                           sleep_events := [Transcript [''hello'']]\<rparr>) [])
       = Inr \<lparr>transcription = ''hello'', error = None\<rparr>"
  by (simp add: run_defs spec_events_of_run_def spec_read_events_def spec_reads_def)

text \<open>
  C10. An error event without a \<open>message\<close> field stores the text \<open>Unknown Deepgram
  error\<close>; when the request reaches the final evaluation and this was the last error
  event delivered, the handler returns the body \<open>{"transcription": "", "error":
  "Deepgram error: Unknown Deepgram error"}\<close>.
\<close>

theorem unknown_error_fallback:
  assumes "key \<noteq> []" and "key \<noteq> PLACEHOLDER_KEY"
    and "fst (run_session p payload initial) = None"
    and "spec_events_of_run p payload = evs @ Error None # evs'"
    and "spec_error_messages evs' = []"
  shows "deepgram_error_message (on_error s None) = Some ''Unknown Deepgram error''
         \<and> deepgram_error_message (snd (run_session p payload initial))
             = Some ''Unknown Deepgram error''
         \<and> fst (transcribe_audio key p payload)
             = Inr \<lparr>transcription = '''',
                    error = Some ''Deepgram error: Unknown Deepgram error''\<rparr>"
  using assms completed_vars(2) [OF assms(3)]
  by (simp add: completed_result(1) evaluate_def truthy_def on_error_def
      spec_error_messages_append)

theorem unknown_error_fallback_witness:
  "fst (run_session (quiet_provider\<lparr>finish_events := [Transcript [''hello''], Error None, Close]\<rparr>)
          [] initial) = None
   \<and> spec_events_of_run (quiet_provider\<lparr>finish_events := [Transcript [''hello''], Error None, Close]\<rparr>) []
       = [Transcript [''hello'']] @ Error None # [Close]
   \<and> deepgram_error_message (on_error initial None) = Some ''Unknown Deepgram error''
   \<and> fst (transcribe_audio ''secret''
            (quiet_provider\<lparr>finish_events := [Transcript [''hello''], Error None, Close]\<rparr>) [])
       = Inr \<lparr>transcription = '''', error = Some ''Deepgram error: Unknown Deepgram error''\<rparr>"
proof -
  let ?p = "quiet_provider\<lparr>finish_events := [Transcript [''hello''], Error None, Close]\<rparr>"
  have run: "fst (run_session ?p [] initial) = None"
    by (simp add: run_defs)
  have evs: "spec_events_of_run ?p [] = [Transcript [''hello'']] @ Error None # [Close]"
    by (simp add: spec_events_of_run_def spec_read_events_def spec_reads_def quiet_provider_def
        script_at_def)
  from unknown_error_fallback [of "''secret''" ?p "[]" "[Transcript [''hello'']]" "[Close]" initial]
    run evs show ?thesis
    by (simp add: PLACEHOLDER_KEY_def)
qed

subsection \<open>The streaming loop\<close>

text \<open>
  C4 (amended). For every uploaded payload of \<open>S\<close> bytes, when the session starts and
  no read and no send raises, the streaming loop issues exactly \<open>ceil(S/4096)\<close> send
  calls, each with at least one and at most 4096 bytes, every one but the last with
  4096; the chunks sent, concatenated in order, are the upload; an empty upload is not
  sent at all.
\<close>

theorem chunked_streaming:
  assumes "key \<noteq> []" and "key \<noteq> PLACEHOLDER_KEY"
    and "client_raises p = None" and "register_raises p = None"
    and "start_result p = Inr True"
    and "set (read_raises p) \<subseteq> {None}" and "set (send_raises p) \<subseteq> {None}"
  shows "length (sent_chunks (calls (snd (transcribe_audio key p payload))))
           = (length payload + 4095) div 4096
       \<and> (\<forall>d \<in> set (sent_chunks (calls (snd (transcribe_audio key p payload)))).
              d \<noteq> [] \<and> length d \<le> 4096)
       \<and> (\<forall>i. Suc i < length (sent_chunks (calls (snd (transcribe_audio key p payload))))
              \<longrightarrow> length (sent_chunks (calls (snd (transcribe_audio key p payload))) ! i) = 4096)
       \<and> concat (sent_chunks (calls (snd (transcribe_audio key p payload)))) = payload
       \<and> (payload = [] \<longrightarrow> sent_chunks (calls (snd (transcribe_audio key p payload))) = [])"
proof -
  have "sent_chunks (calls (snd (transcribe_audio key p payload)))
      = sent_chunks (calls (snd (run_session p payload initial)))"
    by (simp add: cleanup_log [OF assms(1,2)] sent_chunks_append)
  also have "\<dots> = spec_chunks 4096 payload"
    by (simp add: streamed_log(1) [OF assms(3-7)] sent_chunks_append sent_chunks_Send
        chunk_size_def)
  finally have eq: "sent_chunks (calls (snd (transcribe_audio key p payload)))
      = spec_chunks 4096 payload" .
  show ?thesis
    unfolding eq
    using spec_chunks_bounds [of _ 4096 payload] spec_chunks_full [of _ 4096 payload]
    by (simp add: length_spec_chunks concat_spec_chunks)
qed

theorem chunked_streaming_witness:
  "calls (snd (transcribe_audio ''secret'' quiet_provider (replicate 5000 7)))
     = [Start, Send (replicate 4096 7), Send (replicate 904 7), Finish, IsConnected False]
   \<and> fst (transcribe_audio ''secret'' quiet_provider (replicate 5000 7))
     = Inr \<lparr>transcription = '''', error = Some ''No speech detected or empty audio.''\<rparr>
   \<and> length (sent_chunks [Start, Send (replicate 4096 7), Send (replicate 904 7), Finish,
                           IsConnected False]) = (5000 + 4095) div 4096
   \<and> concat (sent_chunks [Start, Send (replicate 4096 7), Send (replicate 904 7), Finish,
                           IsConnected False]) = replicate 5000 7"
proof -
  have run: "transcribe_audio ''secret'' quiet_provider (replicate 5000 7)
     = (Inr \<lparr>transcription = '''', error = Some ''No speech detected or empty audio.''\<rparr>,
        \<lparr>dg_connection = True, transcription_result = '''', deepgram_error_message = None,
         calls = [Start, Send (replicate 4096 7), Send (replicate 904 7), Finish,
                  IsConnected False]\<rparr>)"
    by (simp add: run_defs)
  from chunked_streaming [of "''secret''" quiet_provider "replicate 5000 7"] run
  show ?thesis
    by (simp add: PLACEHOLDER_KEY_def quiet_provider_def)
qed

text \<open>As the claim is written, every upload is sent whole. A send that raises ends
  the loop: when the first send of a 5000-byte upload raises, one chunk of 4096 bytes
  is all that was sent, where \<open>ceil(5000/4096)\<close> is 2.\<close>

theorem raising_send_counterexample:
  "sent_chunks (calls (snd (transcribe_audio ''secret''
       (quiet_provider\<lparr>send_raises := [Some (DeepgramError ''socket closed'')]\<rparr>)
       (replicate 5000 7)))) = [replicate 4096 7]
   \<and> (5000 + 4095) div 4096 = (2::nat)
   \<and> fst (transcribe_audio ''secret''
       (quiet_provider\<lparr>send_raises := [Some (DeepgramError ''socket closed'')]\<rparr>)
       (replicate 5000 7)) = Inl (HTTPException 500 ''Deepgram API error: socket closed'')"
  by (simp add: run_defs api_error_detail_def lower_def lower_char_def)

subsection \<open>A session that does not start\<close>

text \<open>
  C7 (amended). When \<open>start\<close> answers false, the handler raises \<open>HTTPException\<close> with
  status 500; the detail is the message of the last error event delivered until then
  when there is one and it is not empty, and \<open>Failed to connect to Deepgram
  (initiation phase).\<close> otherwise. Nothing is sent: the only calls are \<open>start\<close> and the
  close-if-still-open attempt of the \<open>finally\<close> block.
\<close>

theorem failed_start_detail:
  assumes "key \<noteq> []" and "key \<noteq> PLACEHOLDER_KEY"
    and "client_raises p = None" and "register_raises p = None"
    and "start_result p = Inr False"
  shows "fst (transcribe_audio key p payload)
           = Inl (HTTPException 500
               (if spec_error_messages (start_events p) \<noteq> []
                     \<and> last (spec_error_messages (start_events p)) \<noteq> []
                then last (spec_error_messages (start_events p))
                else ''Failed to connect to Deepgram (initiation phase).''))
       \<and> calls (snd (transcribe_audio key p payload))
           = Start # spec_close_if_open (script_at (connected_answers p) 0 False)
       \<and> sent_chunks (calls (snd (transcribe_audio key p payload))) = []"
proof -
  let ?s2 = "deliver (start_events p) (log_call Start (initial\<lparr>dg_connection := True\<rparr>))"
  let ?generic = "''Failed to connect to Deepgram (initiation phase).''"
  have msg: "deepgram_error_message ?s2 =
      (if spec_error_messages (start_events p) = [] then None
       else Some (last (spec_error_messages (start_events p))))"
    by (simp add: error_deliver log_call_def)
  from assms(3-5) have run: "run_session p payload initial =
      (Some (HTTPException 500
         (case deepgram_error_message ?s2 of None \<Rightarrow> ?generic
          | Some m \<Rightarrow> if m \<noteq> [] then m else ?generic)), ?s2)"
    by (simp add: run_session_def Let_def)
  have c: "calls ?s2 = [Start]" "dg_connection ?s2" by (simp_all add: log_call_def)
  from run c msg show ?thesis
    by (simp add: handler_paths [OF assms(1,2)] finish_if_connected_calls)
qed

theorem failed_start_detail_witness:
  "fst (transcribe_audio ''secret''
          (quiet_provider\<lparr>start_events := [Error (Some ''Bad gateway'')],
                           start_result := Inr False\<rparr>) [1, 2, 3])
     = Inl (HTTPException 500 ''Bad gateway'')
   \<and> calls (snd (transcribe_audio ''secret''
          (quiet_provider\<lparr>start_events := [Error (Some ''Bad gateway'')],
                           start_result := Inr False\<rparr>) [1, 2, 3]))
     = [Start, IsConnected False]"
  using failed_start_detail
    [of "''secret''" "quiet_provider\<lparr>start_events := [Error (Some ''Bad gateway'')],
                           start_result := Inr False\<rparr>" "[1, 2, 3]"]
  by (simp add: PLACEHOLDER_KEY_def quiet_provider_def spec_close_if_open_def script_at_def)

text \<open>
  As the claim is written, a captured message is always the detail. A captured empty
  message is replaced by the generic text (\<open>deepgram_error_message or ...\<close>, line 111).
\<close>

theorem empty_message_generic_counterexample:
  "deepgram_error_message (snd (transcribe_audio ''secret''
          (quiet_provider\<lparr>start_events := [Error (Some '''')],
                           start_result := Inr False\<rparr>) [1, 2, 3])) = Some ''''
   \<and> fst (transcribe_audio ''secret''
          (quiet_provider\<lparr>start_events := [Error (Some '''')],
                           start_result := Inr False\<rparr>) [1, 2, 3])
     = Inl (HTTPException 500 ''Failed to connect to Deepgram (initiation phase).'')"
  by (simp add: run_defs)

subsection \<open>Exceptions of the provider SDK\<close>

text \<open>
  C8. When a \<open>DeepgramError\<close> leaves the \<open>try\<close> block (raised while the session is set
  up, started or streamed to), the handler raises \<open>HTTPException\<close> with status 500; the
  detail is \<open>Deepgram authentication error. Check API Key.\<close> when the lower-cased text
  of the exception contains \<open>auth\<close>, and \<open>Deepgram API error: \<close> followed by the text
  otherwise. If the connection object exists, the exception handler and then the
  \<open>finally\<close> block each ask \<open>is_connected\<close> and call \<open>finish\<close> when the answer is positive;
  if it does not exist, no call is made.
\<close>

theorem provider_exception_reported:
  assumes "key \<noteq> []" and "key \<noteq> PLACEHOLDER_KEY"
    and "run_session p payload initial = (Some (DeepgramError text), s)"
  shows "fst (transcribe_audio key p payload)
           = Inl (HTTPException 500
               (if sublist ''auth'' (lower text)
                then ''Deepgram authentication error. Check API Key.''
                else ''Deepgram API error: '' @ text))
       \<and> calls (snd (transcribe_audio key p payload))
           = (if dg_connection s
              then calls s @ spec_close_if_open (script_at (connected_answers p) 0 False)
                     @ spec_close_if_open (script_at (connected_answers p) 1 False)
              else calls s)"
  using assms(3) cleanup_twice [of p payload]
  by (simp add: handler_paths [OF assms(1,2)] api_error_detail_def contains_sublist)

theorem provider_exception_reported_witness:
  "run_session (quiet_provider\<lparr>start_result := Inl (DeepgramError ''Invalid Auth token''),
                                connected_answers := [True, False]\<rparr>) [1, 2, 3] initial
     = (Some (DeepgramError ''Invalid Auth token''),
        \<lparr>dg_connection = True, transcription_result = '''', deepgram_error_message = None,
         calls = [Start]\<rparr>)
   \<and> fst (transcribe_audio ''secret''
          (quiet_provider\<lparr>start_result := Inl (DeepgramError ''Invalid Auth token''),
                           connected_answers := [True, False]\<rparr>) [1, 2, 3])
     = Inl (HTTPException 500 ''Deepgram authentication error. Check API Key.'')
   \<and> calls (snd (transcribe_audio ''secret''
          (quiet_provider\<lparr>start_result := Inl (DeepgramError ''Invalid Auth token''),
                           connected_answers := [True, False]\<rparr>) [1, 2, 3]))
     = [Start, IsConnected True, Finish, IsConnected False]"
proof -
  let ?p = "quiet_provider\<lparr>start_result := Inl (DeepgramError ''Invalid Auth token''),
                           connected_answers := [True, False]\<rparr>"
  have run: "run_session ?p [1, 2, 3] initial
     = (Some (DeepgramError ''Invalid Auth token''),
        \<lparr>dg_connection = True, transcription_result = '''', deepgram_error_message = None,
         calls = [Start]\<rparr>)"
    by (simp add: run_defs)
  have auth: "sublist ''auth'' (lower ''Invalid Auth token'')"
    by (simp add: contains_sublist [symmetric] lower_def lower_char_def)
  from provider_exception_reported [OF _ _ run, of "''secret''"] run auth show ?thesis
    by (simp add: PLACEHOLDER_KEY_def quiet_provider_def spec_close_if_open_def script_at_def)
qed

subsection \<open>Closing the session\<close>

text \<open>
  C3 (amended). On every code path (normal return, provider error, any other
  exception) the handler's calls on the session are those of the \<open>try\<close> block followed,
  when a connection object exists, by the close-if-still-open attempts of the cleanup:
  two on the provider-exception and unexpected-exception paths (the \<open>except\<close> clause,
  then the \<open>finally\<close> block), one on every other path (the \<open>finally\<close> block alone). Each
  attempt asks \<open>is_connected\<close> and invokes the close operation exactly when the answer
  is positive. In the \<open>try\<close> block the close operation is invoked at most once, without
  a check, after streaming (line 124), and always when the \<open>try\<close> block ends normally.
  So the close operation is invoked at least once whenever the handler returns a body
  and at most three times; every close but the one of line 124 directly follows a
  positive answer of \<open>is_connected\<close>, and without such an answer there is no other
  close; no \<open>start\<close> or \<open>send\<close> follows a close; without a connection object nothing is
  called. (The close attempts of the cleanup are taken to complete.)
\<close>

theorem close_discipline:
  assumes "key \<noteq> []" and "key \<noteq> PLACEHOLDER_KEY"
  shows "(let (r, s0) = run_session p payload initial;
              (result, s) = transcribe_audio key p payload
          in calls s = calls s0 @ (if dg_connection s0
                                   then spec_cleanup p (spec_close_attempts r) else [])
           \<and> (\<not> dg_connection s0 \<longrightarrow> calls s = [])
           \<and> closes (calls s0) \<le> 1
           \<and> (r = None \<longrightarrow> closes (calls s0) = 1)
           \<and> isl result = (r \<noteq> None)
           \<and> unguarded_closes (calls s) = closes (calls s0)
           \<and> closes (calls s) = closes (calls s0) + positive_checks (calls s)
           \<and> closes (calls s) \<le> 3
           \<and> (dg_connection s \<longrightarrow> checked_last (calls s))
           \<and> no_use_after_close (calls s))"
proof -
  obtain r s0 where rs: "run_session p payload initial = (r, s0)"
    by (cases "run_session p payload initial")
  obtain result s where ts: "transcribe_audio key p payload = (result, s)"
    by (cases "transcribe_audio key p payload")
  let ?n = "spec_close_attempts r"
  from run_session_shape [of p payload] obtain cs where
    sh: "list_all streaming cs
      \<and> (calls (snd (run_session p payload initial)) = cs
           \<or> calls (snd (run_session p payload initial)) = cs @ [Finish])
      \<and> (fst (run_session p payload initial) = None
           \<longrightarrow> calls (snd (run_session p payload initial)) = cs @ [Finish])
      \<and> (\<not> dg_connection (snd (run_session p payload initial))
           \<longrightarrow> calls (snd (run_session p payload initial)) = [])"
    by (rule exE)
  from sh have cs: "list_all streaming cs" by (rule conjunct1)
  from sh rs have l0: "calls s0 = cs \<or> calls s0 = cs @ [Finish]" by simp
  from sh rs have fin: "r = None \<Longrightarrow> calls s0 = cs @ [Finish]" by simp
  from sh rs have nocon: "\<not> dg_connection s0 \<Longrightarrow> calls s0 = []" by simp
  note counts = session_log_counts [OF cs l0]
  have n: "0 < ?n" "?n \<le> 2"
    by (cases r rule: spec_close_attempts.cases; simp)+
  have log: "calls s = calls s0 @ (if dg_connection s0 then spec_cleanup p ?n else [])"
    using cleanup_log [OF assms, of p payload] rs ts by simp
  have c1: "\<not> dg_connection s0 \<Longrightarrow> calls s = []"
    using log nocon by simp
  have c2: "closes (calls s0) \<le> 1"
    using counts(1) by simp
  have c3: "r = None \<Longrightarrow> closes (calls s0) = 1"
    using counts(1) fin by simp
  have c4: "isl result = (r \<noteq> None)"
    using handler_result(1) [OF assms, of p payload] rs ts by simp
  have c5: "unguarded_closes (calls s) = closes (calls s0)"
    unfolding unguarded_closes_def log
    using counts(2) by (simp add: unguarded_cleanup)
  have c6: "closes (calls s) = closes (calls s0) + positive_checks (calls s)"
  proof (cases "dg_connection s0")
    case True
    with log have "calls s = calls s0 @ spec_cleanup p ?n" by simp
    then show ?thesis
      using counts(3) by (simp add: closes_append positive_checks_append closes_cleanup(1))
  next
    case False
    with log have "calls s = calls s0" by simp
    then show ?thesis using counts(3) by simp
  qed
  have "closes (spec_cleanup p ?n) \<le> 2"
    using closes_cleanup(2) [of p ?n] n(2) by simp
  with c2 have c7: "closes (calls s) \<le> 3"
    unfolding log by (simp add: closes_append closes_def)
  have c8: "dg_connection s \<Longrightarrow> checked_last (calls s)"
  proof -
    assume "dg_connection s"
    with handler_result(2) [OF assms, of p payload] rs ts have "dg_connection s0" by simp
    with log have "calls s = calls s0 @ spec_cleanup p ?n" by simp
    with n(1) show ?thesis by (simp add: checked_last_cleanup)
  qed
  have c9: "no_use_after_close (calls s)"
    unfolding log
    using counts(4) by (simp add: no_use_append cleanup_not_streaming)
  from log c1 c2 c3 c4 c5 c6 c7 c8 c9 show ?thesis
    unfolding rs ts by simp
qed

theorem close_discipline_witness:
  "run_session
     (quiet_provider\<lparr>finish_raises := Some (OtherException ''timed out''),
                      connected_answers := [True, True]\<rparr>) [1, 2, 3] initial
     = (Some (OtherException ''timed out''),
        \<lparr>dg_connection = True, transcription_result = '''', deepgram_error_message = None,
         calls = [Start, Send [1, 2, 3], Finish]\<rparr>)
   \<and> transcribe_audio ''secret''
       (quiet_provider\<lparr>finish_raises := Some (OtherException ''timed out''),
                        connected_answers := [True, True]\<rparr>) [1, 2, 3]
     = (Inl (HTTPException 500 ''An unexpected server error occurred: timed out''),
        \<lparr>dg_connection = True, transcription_result = '''', deepgram_error_message = None,
         calls = [Start, Send [1, 2, 3], Finish, IsConnected True, Finish,
                  IsConnected True, Finish]\<rparr>)
   \<and> unguarded_closes [Start, Send [1, 2, 3], Finish, IsConnected True, Finish,
                        IsConnected True, Finish] = 1
   \<and> closes [Start, Send [1, 2, 3], Finish, IsConnected True, Finish,
              IsConnected True, Finish] = 3
   \<and> checked_last [Start, Send [1, 2, 3], Finish, IsConnected True, Finish,
                    IsConnected True, Finish]
   \<and> no_use_after_close [Start, Send [1, 2, 3], Finish, IsConnected True, Finish,
                          IsConnected True, Finish]"
proof -
  let ?p = "quiet_provider\<lparr>finish_raises := Some (OtherException ''timed out''),
                           connected_answers := [True, True]\<rparr>"
  have run: "run_session ?p [1, 2, 3] initial
     = (Some (OtherException ''timed out''),
        \<lparr>dg_connection = True, transcription_result = '''', deepgram_error_message = None,
         calls = [Start, Send [1, 2, 3], Finish]\<rparr>)"
    by (simp add: run_defs)
  have out: "transcribe_audio ''secret'' ?p [1, 2, 3]
     = (Inl (HTTPException 500 ''An unexpected server error occurred: timed out''),
        \<lparr>dg_connection = True, transcription_result = '''', deepgram_error_message = None,
         calls = [Start, Send [1, 2, 3], Finish, IsConnected True, Finish,
                  IsConnected True, Finish]\<rparr>)"
    by (simp add: run_defs)
  have c: "closes [Start, Send [1, 2, 3], Finish] = 1"
    by (simp add: closes_def)
  from close_discipline [of "''secret''" ?p "[1, 2, 3]"] run out c show ?thesis
    by (simp add: PLACEHOLDER_KEY_def positive_checks_def closes_def unguarded_closes_def
        checked_last_def spec_cleanup_def spec_close_if_open_def script_at_def
        quiet_provider_def numeral_2_eq_2)
qed

text \<open>As the claim is written, the close operation is invoked at least once on every
  path, and every invocation is guarded by a check. When \<open>start\<close> raises and the
  session is never reported connected, it is not invoked at all; and on the normal
  path the \<open>finish\<close> of line 124 is called without asking \<open>is_connected\<close>.\<close>

theorem close_not_always_invoked_counterexample:
  "fst (transcribe_audio ''secret''
          (quiet_provider\<lparr>start_result := Inl (DeepgramError ''connection refused'')\<rparr>) [1, 2, 3])
     = Inl (HTTPException 500 ''Deepgram API error: connection refused'')
   \<and> calls (snd (transcribe_audio ''secret''
          (quiet_provider\<lparr>start_result := Inl (DeepgramError ''connection refused'')\<rparr>) [1, 2, 3]))
     = [Start, IsConnected False, IsConnected False]
   \<and> closes (calls (snd (transcribe_audio ''secret''
          (quiet_provider\<lparr>start_result := Inl (DeepgramError ''connection refused'')\<rparr>) [1, 2, 3])))
     = 0
   \<and> calls (snd (transcribe_audio ''secret'' quiet_provider [1, 2, 3]))
     = [Start, Send [1, 2, 3], Finish, IsConnected False]
   \<and> unguarded_closes (calls (snd (transcribe_audio ''secret'' quiet_provider [1, 2, 3]))) = 1"
  by (simp add: run_defs api_error_detail_def lower_def lower_char_def closes_def
      unguarded_closes_def)

end
